theory Spec2Isabelle
  imports Main "HOL-Library.Word"
begin

section \<open>The pipeline graph of \<open>src/pipeline.h\<close>\<close>

text \<open>
  The header declares the error kinds, the abstract \<open>node\<close> interface and the class
  \<open>pipeline\<close>, which owns a table of nodes (\<open>std::vector<std::unique_ptr<node>>\<close>) and
  hands out indices into it as handles. The member functions with a body in the header are
  \<open>invalid_node_id\<close>, \<open>is_valid\<close>, \<open>make_node_id\<close>, \<open>create_node\<close>, \<open>erase_node\<close>,
  \<open>get_node\<close>, \<open>connect\<close> and \<open>run\<close>; \<open>step\<close> is declared only. Each member function is
  embedded as a function of the object it is called on.
\<close>

subsection \<open>Errors and outcomes\<close>

text \<open>\<open>enum class pipeline_error_kind\<close> (lines 14 to 19).\<close>

datatype pipeline_error_kind =
  invalid_node_id | no_such_slot | slot_already_used | connection_type_mismatch

text \<open>
  The exceptions a call can leave with: a \<open>pipeline_error\<close> of some kind, or the
  \<open>std::length_error\<close> of \<open>std::vector::push_back\<close>.
\<close>

datatype exn = pipeline_error pipeline_error_kind | length_error

text \<open>
  What a call does: it returns a value and leaves a state, it throws and leaves a state, or
  its behaviour is undefined (\<open>nodes[n_id]\<close> with \<open>n_id >= nodes.size()\<close>:
  \<open>std::vector::operator[]\<close> checks no bounds).
\<close>

datatype ('a, 's) outcome = Returns 'a 's | Throws exn 's | Undefined

subsection \<open>The state of a pipeline\<close>

text \<open>
  \<open>using node_id = std::size_t\<close>, 64 bits wide. A \<open>std::unique_ptr<node>\<close> and a
  \<open>node*\<close> are the node they point to, or \<open>None\<close> for the null pointer; the node
  type \<open>'n\<close> stands for the concrete classes derived from \<open>node\<close>, none of which is in
  the header.
\<close>

type_synonym node_id = "64 word"

record 'n connection =
  conn_src :: "'n option"
  conn_dst :: "'n option"
  conn_slot :: int

record 'n pipeline =
  nodes :: "'n option list"
  node_ids :: "('n option \<times> int) list"
  connections :: "'n connection list"

text \<open>\<open>pipeline() = default\<close>: every member is empty.\<close>

definition pipeline_default :: "'n pipeline" where
  "pipeline_default = \<lparr>nodes = [], node_ids = [], connections = []\<rparr>"

text \<open>
  \<open>std::vector::max_size()\<close> for the node table: \<open>PTRDIFF_MAX / sizeof(std::unique_ptr<node>)\<close>
  with 8-byte pointers. \<open>push_back\<close> on a vector of that size throws \<open>std::length_error\<close>,
  so \<open>nodes.size()\<close> always fits a \<open>std::size_t\<close>.
\<close>

definition nodes_max_size :: nat where
  "nodes_max_size = (2 ^ 63 - 1) div 8"

subsection \<open>Handles (3.6.1)\<close>

text \<open>\<open>invalid_node_id()\<close> returns \<open>std::numeric_limits<node_id>::max()\<close>, the word of all ones.\<close>

definition invalid_node_id :: "'n pipeline \<Rightarrow> node_id" where
  "invalid_node_id p = - 1"

definition is_valid :: "'n pipeline \<Rightarrow> node_id \<Rightarrow> bool" where
  "is_valid p nid = (nid \<noteq> invalid_node_id p)"

definition make_node_id :: "'n pipeline \<Rightarrow> 64 word \<Rightarrow> node_id" where
  "make_node_id p v = v"

subsection \<open>The node table (3.6.3)\<close>

text \<open>
  \<open>create_node\<close>: \<open>new_node\<close> is the node \<open>std::make_unique<N>(args...)\<close> has built. The
  handle is \<open>nodes.size()\<close> before the \<open>push_back\<close>.
\<close>

definition create_node :: "'n pipeline \<Rightarrow> 'n \<Rightarrow> (node_id, 'n pipeline) outcome" where
  "create_node p new_node =
     (let nid = make_node_id p (of_nat (length (nodes p)))
      in if length (nodes p) < nodes_max_size
         then Returns nid (p\<lparr>nodes := nodes p @ [Some new_node]\<rparr>)
         else Throws length_error p)"

text \<open>\<open>erase_node\<close>: \<open>nodes[n_id].reset()\<close> under the guard \<open>is_valid(n_id)\<close>.\<close>

definition erase_node :: "'n pipeline \<Rightarrow> node_id \<Rightarrow> (unit, 'n pipeline) outcome" where
  "erase_node p n_id =
     (if is_valid p n_id
      then (if unat n_id < length (nodes p)
            then Returns () (p\<lparr>nodes := (nodes p)[unat n_id := None]\<rparr>)
            else Undefined)
      else Returns () p)"

text \<open>\<open>get_node\<close>: \<open>nodes[n_id].get()\<close> under the guard \<open>is_valid(n_id)\<close>, else \<open>nullptr\<close>.\<close>

definition get_node :: "'n pipeline \<Rightarrow> node_id \<Rightarrow> ('n option, 'n pipeline) outcome" where
  "get_node p n_id =
     (if is_valid p n_id
      then (if unat n_id < length (nodes p)
            then Returns (nodes p ! unat n_id) p
            else Undefined)
      else Returns None p)"

subsection \<open>Connecting nodes (3.6.4)\<close>

text \<open>
  \<open>connect\<close> resolves both handles and, when both pointers are non-null, makes the virtual
  call \<open>dst_node->connect(src_node, slot)\<close>; otherwise it throws
  \<open>pipeline_error(invalid_node_id)\<close>. \<open>node::connect\<close> is pure virtual and no override has a
  body in the header, so the call is the parameter \<open>nconnect\<close>: given the destination, the
  source and the slot it returns or throws, leaving the destination as it then is, or its
  behaviour is undefined. The destination is the object owned by table slot \<open>dst\<close>, so that
  is where the call's effect on it shows. Nothing else is written: not \<open>connections\<close>, not
  \<open>node_ids\<close>.
\<close>

definition connect ::
  "('n \<Rightarrow> 'n \<Rightarrow> int \<Rightarrow> (unit, 'n) outcome) \<Rightarrow> 'n pipeline \<Rightarrow> node_id \<Rightarrow> node_id \<Rightarrow> int
     \<Rightarrow> (unit, 'n pipeline) outcome" where
  "connect nconnect p src dst slot =
     (case get_node p src of
        Undefined \<Rightarrow> Undefined
      | Throws e p1 \<Rightarrow> Throws e p1
      | Returns src_node p1 \<Rightarrow>
          (case get_node p1 dst of
             Undefined \<Rightarrow> Undefined
           | Throws e p2 \<Rightarrow> Throws e p2
           | Returns dst_node p2 \<Rightarrow>
               (case (src_node, dst_node) of
                  (Some s, Some d) \<Rightarrow>
                    (case nconnect d s slot of
                       Returns u d' \<Rightarrow> Returns () (p2\<lparr>nodes := (nodes p2)[unat dst := Some d']\<rparr>)
                     | Throws e d' \<Rightarrow> Throws e (p2\<lparr>nodes := (nodes p2)[unat dst := Some d']\<rparr>)
                     | Undefined \<Rightarrow> Undefined)
                | _ \<Rightarrow> Throws (pipeline_error pipeline_error_kind.invalid_node_id) p2)))"

subsection \<open>Running (3.6.5)\<close>

text \<open>
  \<open>run\<close> is \<open>while (!step()) {}\<close>. \<open>step\<close> is declared in the header and defined nowhere
  in it, so it is a parameter: applied to the state it gives the flag it returns and the
  state it leaves. A loop that never sees \<open>true\<close> does not return: the value \<open>None\<close>.
\<close>

partial_function (option) run :: "('s \<Rightarrow> bool \<times> 's) \<Rightarrow> 's \<Rightarrow> 's option" where
  "run step p = (case step p of (complete, p') \<Rightarrow> if complete then Some p' else run step p')"

subsection \<open>Auxiliary notions for the statements\<close>

text \<open>A pipeline whose node table is \<open>ns\<close> and whose other members are empty.\<close>

definition table_of :: "'n option list \<Rightarrow> 'n pipeline" where
  "table_of ns = \<lparr>nodes = ns, node_ids = [], connections = []\<rparr>"

text \<open>
  A handle whose node has been erased: it names a slot of the table and the slot holds the
  null pointer. (\<open>create_node\<close> only ever appends non-null pointers; \<open>erase_node\<close> is
  the one function that resets one.)
\<close>

definition erased :: "'n pipeline \<Rightarrow> node_id \<Rightarrow> bool" where
  "erased p h = (unat h < length (nodes p) \<and> nodes p ! unat h = None)"

text \<open>
  The host's calls of \<open>create_node\<close> and \<open>erase_node\<close>, in order. A sequence is run
  from left to right and stops at the first call that throws or is undefined; when every
  call returns, the result lists the handles \<open>create_node\<close> handed out.
\<close>

datatype 'n operation = Create 'n | Erase node_id

fun apply_operations ::
  "'n operation list \<Rightarrow> 'n pipeline \<Rightarrow> (node_id list, 'n pipeline) outcome" where
  "apply_operations [] p = Returns [] p"
| "apply_operations (Create new_node # ops) p =
     (case create_node p new_node of
        Returns h p' \<Rightarrow>
          (case apply_operations ops p' of
             Returns hs p'' \<Rightarrow> Returns (h # hs) p''
           | Throws e p'' \<Rightarrow> Throws e p''
           | Undefined \<Rightarrow> Undefined)
      | Throws e p' \<Rightarrow> Throws e p'
      | Undefined \<Rightarrow> Undefined)"
| "apply_operations (Erase h # ops) p =
     (case erase_node p h of
        Returns u p' \<Rightarrow> apply_operations ops p'
      | Throws e p' \<Rightarrow> Throws e p'
      | Undefined \<Rightarrow> Undefined)"

text \<open>The state after \<open>n\<close> calls of \<open>step\<close>.\<close>

fun state_after :: "('s \<Rightarrow> bool \<times> 's) \<Rightarrow> nat \<Rightarrow> 's \<Rightarrow> 's" where
  "state_after step 0 p = p"
| "state_after step (Suc n) p = state_after step n (snd (step p))"

subsection \<open>Concrete nodes\<close>

text \<open>
  Modelled from the spec: the concrete node classes. The header has the templates
  \<open>producer\<close>, \<open>component\<close>, \<open>sink\<close> and \<open>source\<close>, which fix \<open>input_type\<close> and
  \<open>output_type\<close>, but no class that implements \<open>node\<close>. Following section 3 of the
  specification a node has a display name, a declared output type, a declared tuple of
  input types and one input slot per input type, each unbound or bound to an upstream
  node. The types that occur in the examples are \<open>void\<close>, \<open>int\<close> and \<open>std::string\<close>.
\<close>

datatype cpp_type = T_void | T_int | T_string

datatype tnode =
  Tnode (node_name: string) (output_type: cpp_type) (input_type: "cpp_type list")
    (inputs: "tnode option list")

text \<open>
  Modelled from the spec: a \<open>Source<Output>\<close> node. Section 4.2: it is
  \<open>Component<(), Output>\<close> and has zero input slots (\<open>source\<close> at lines 84 to 88 of the
  header derives from \<open>component<std::tuple<>, Output>\<close>).
\<close>

definition source_node :: "string \<Rightarrow> cpp_type \<Rightarrow> tnode" where
  "source_node nm out = Tnode nm out [] []"

text \<open>
  Modelled from the spec: a \<open>Sink<Input>\<close> node. Section 4.2: it is
  \<open>Component<(Input), void>\<close> and has exactly one input slot, unbound when the node is
  created (\<open>sink\<close> at lines 81 and 82 derives from \<open>component<std::tuple<Input>, void>\<close>).
\<close>

definition sink_node :: "string \<Rightarrow> cpp_type \<Rightarrow> tnode" where
  "sink_node nm inp = Tnode nm T_void [inp] [None]"

text \<open>
  Modelled from the spec: the private \<open>connect(source, slot)\<close> of a node, of which the
  header has the pure virtual declaration only. Section 4.1: it binds an upstream node as
  the input for the given slot index and is called only after validation has succeeded.
  So it validates nothing and binds the node it is given to the slot. For a slot index
  the node does not have (any index, when the node is a source) there is nothing to bind
  and the specification names no behaviour: section 4.2 has the override declared by
  \<open>source\<close> (line 87) "always fail" without saying how. The model leaves such a call
  undefined, and no statement below makes one.
\<close>

definition node_connect :: "tnode \<Rightarrow> tnode \<Rightarrow> int \<Rightarrow> (unit, tnode) outcome" where
  "node_connect d s slot =
     (if 0 \<le> slot \<and> nat slot < length (inputs d)
      then Returns ()
             (Tnode (node_name d) (output_type d) (input_type d) ((inputs d)[nat slot := Some s]))
      else Undefined)"

text \<open>
  The nodes of the examples: two \<open>Source<int>\<close>, a \<open>Source<string>\<close>, a \<open>Sink<int>\<close>
  and a \<open>Sink<string>\<close>.
\<close>

abbreviation source_A :: tnode where "source_A \<equiv> source_node ''A'' T_int"
abbreviation source_A2 :: tnode where "source_A2 \<equiv> source_node ''A2'' T_int"
abbreviation source_S :: tnode where "source_S \<equiv> source_node ''S'' T_string"
abbreviation sink_B_int :: tnode where "sink_B_int \<equiv> sink_node ''B'' T_int"
abbreviation sink_B_string :: tnode where "sink_B_string \<equiv> sink_node ''B'' T_string"

section \<open>Handles are plain numbers\<close>

lemma is_valid_iff: "is_valid p h \<longleftrightarrow> h \<noteq> - 1"
  by (simp add: is_valid_def invalid_node_id_def)

text \<open>
  C10: \<open>make_node_id\<close> is the identity, and \<open>is_valid\<close> compares the handle with
  \<open>numeric_limits<size_t>::max()\<close> = \<open>2^64 - 1\<close> and reads nothing of the pipeline: the
  answer is the same on every pipeline, whatever its node table holds, so it is true also
  for a handle never returned by \<open>create_node\<close> and for one whose node has been erased.
\<close>

theorem handles_are_pure:
  "make_node_id p v = v
   \<and> unat (invalid_node_id p) = 2 ^ 64 - 1
   \<and> is_valid p h = (h \<noteq> invalid_node_id p)
   \<and> is_valid p h = (unat h \<noteq> 2 ^ 64 - 1)
   \<and> is_valid p h = is_valid q h
   \<and> make_node_id p v = make_node_id q v
   \<and> invalid_node_id p = invalid_node_id q"
proof -
  have m: "unat (- 1 :: 64 word) = 2 ^ 64 - 1"
    by (simp add: unsigned_minus_1_eq_mask mask_eq_exp_minus_1)
  have "h \<noteq> - 1 \<longleftrightarrow> unat h \<noteq> unat (- 1 :: 64 word)"
    by (simp add: word_unat_eq_iff)
  with m show ?thesis
    by (simp add: make_node_id_def invalid_node_id_def is_valid_def)
qed

section \<open>The node table\<close>

subsection \<open>What the three table functions do\<close>

lemma unat_of_nat_table: "n \<le> nodes_max_size \<Longrightarrow> unat (of_nat n :: 64 word) = n"
  by (simp add: unat_of_nat nodes_max_size_def)

lemma table_handle_not_sentinel:
  assumes "unat h < length (nodes p)" and "length (nodes p) \<le> nodes_max_size"
  shows "(h :: node_id) \<noteq> - 1"
proof -
  from assms have "unat h < 2 ^ 64 - 1" by (simp add: nodes_max_size_def)
  then show ?thesis by (auto simp: unsigned_minus_1_eq_mask mask_eq_exp_minus_1)
qed

lemma get_node_Returns:
  assumes "h = - 1 \<or> unat h < length (nodes p)"
  shows "get_node p h = Returns (if h = - 1 then None else nodes p ! unat h) p"
  using assms by (auto simp: get_node_def is_valid_iff)

lemma create_node_Returns:
  assumes "create_node p n = Returns h p'"
  shows "h = of_nat (length (nodes p)) \<and> nodes p' = nodes p @ [Some n]
         \<and> length (nodes p) < nodes_max_size
         \<and> connections p' = connections p \<and> node_ids p' = node_ids p"
  using assms by (auto simp: create_node_def make_node_id_def Let_def split: if_splits)

lemma erase_node_Returns:
  assumes "erase_node p h = Returns u p'"
  shows "length (nodes p') = length (nodes p)
         \<and> (\<forall>i. i \<noteq> unat h \<longrightarrow> nodes p' ! i = nodes p ! i)
         \<and> (\<forall>i < length (nodes p). nodes p ! i = None \<longrightarrow> nodes p' ! i = None)
         \<and> connections p' = connections p \<and> node_ids p' = node_ids p"
  using assms by (auto simp: erase_node_def nth_list_update split: if_splits)

text \<open>
  Along any sequence of calls that all return, the table only grows, stays within
  \<open>max_size()\<close>, keeps every empty slot empty, and every handle handed out names a slot
  that did not exist before the sequence.
\<close>

lemma apply_operations_table:
  assumes "apply_operations ops p = Returns hs p'" and "length (nodes p) \<le> nodes_max_size"
  shows "length (nodes p) \<le> length (nodes p') \<and> length (nodes p') \<le> nodes_max_size
         \<and> (\<forall>i < length (nodes p). nodes p ! i = None \<longrightarrow> nodes p' ! i = None)
         \<and> (\<forall>h \<in> set hs. length (nodes p) \<le> unat h \<and> unat h < length (nodes p'))"
  using assms
proof (induction ops arbitrary: p hs)
  case Nil
  then show ?case by simp
next
  case (Cons op ops)
  show ?case
  proof (cases op)
    case (Create n)
    from Cons.prems(1) Create obtain h q hs' where
      c: "create_node p n = Returns h q" and r: "apply_operations ops q = Returns hs' p'"
      and hs: "hs = h # hs'"
      by (auto split: outcome.splits)
    from create_node_Returns [OF c] have
      h: "h = of_nat (length (nodes p))" and q: "nodes q = nodes p @ [Some n]"
      and lt: "length (nodes p) < nodes_max_size"
      by simp_all
    from q lt have lq: "length (nodes q) \<le> nodes_max_size" by simp
    note ih = Cons.IH [OF r lq]
    from h lt have uh: "unat h = length (nodes p)" by (simp add: unat_of_nat_table)
    have "\<forall>i < length (nodes p). nodes p ! i = None \<longrightarrow> nodes p' ! i = None"
    proof (intro allI impI)
      fix i assume i: "i < length (nodes p)" and n: "nodes p ! i = None"
      from i q have "i < length (nodes q)" and "nodes q ! i = nodes p ! i"
        by (simp_all add: nth_append)
      with n ih show "nodes p' ! i = None" by simp
    qed
    moreover have "\<forall>k \<in> set hs. length (nodes p) \<le> unat k \<and> unat k < length (nodes p')"
      using ih q uh hs by auto
    moreover have "length (nodes p) \<le> length (nodes p')" using ih q by simp
    ultimately show ?thesis using ih by simp
  next
    case (Erase h)
    from Cons.prems(1) Erase obtain q where
      e: "erase_node p h = Returns () q" and r: "apply_operations ops q = Returns hs p'"
      by (auto split: outcome.splits)
    from erase_node_Returns [OF e] have
      l: "length (nodes q) = length (nodes p)"
      and keep: "\<forall>i < length (nodes p). nodes p ! i = None \<longrightarrow> nodes q ! i = None"
      by simp_all
    from l Cons.prems(2) have lq: "length (nodes q) \<le> nodes_max_size" by simp
    note ih = Cons.IH [OF r lq]
    show ?thesis using ih l keep by auto
  qed
qed

subsection \<open>Validity of a handle and lookup\<close>

text \<open>
  C5, as the code has it: \<open>is_valid(h)\<close> is false if and only if \<open>h\<close> is the sentinel
  \<open>invalid_node_id()\<close>; erasing a node does not make its handle invalid. \<open>get_node\<close> on
  the sentinel and on a handle whose node has been erased returns no node.
\<close>

theorem is_valid_false_iff_sentinel:
  "(\<not> is_valid p h \<longleftrightarrow> h = invalid_node_id p)
   \<and> (h = invalid_node_id p \<or> erased p h \<longrightarrow> get_node p h = Returns None p)"
  by (auto simp: is_valid_def erased_def get_node_def)

theorem is_valid_false_iff_sentinel_witness:
  "erased (table_of [None :: tnode option]) 0
   \<and> get_node (table_of [None :: tnode option]) 0 = Returns None (table_of [None])
   \<and> get_node (table_of [None :: tnode option]) (- 1) = Returns None (table_of [None])
   \<and> \<not> is_valid (table_of [None :: tnode option]) (- 1)"
  using is_valid_false_iff_sentinel [of "table_of [None :: tnode option]" 0]
    is_valid_false_iff_sentinel [of "table_of [None :: tnode option]" "- 1"]
  by (simp add: erased_def table_of_def invalid_node_id_def)

text \<open>
  C5 as stated fails: after \<open>create_node\<close> and \<open>erase_node\<close> of handle 0 the handle has
  been erased and is not the sentinel, and \<open>is_valid\<close> is still true of it.
\<close>

theorem erased_handle_still_valid:
  "create_node pipeline_default source_A = Returns 0 (table_of [Some source_A])
   \<and> erase_node (table_of [Some source_A]) 0 = Returns () (table_of [None])
   \<and> erased (table_of [None :: tnode option]) 0
   \<and> 0 \<noteq> invalid_node_id (table_of [None :: tnode option])
   \<and> is_valid (table_of [None :: tnode option]) 0"
  by (simp add: create_node_def erase_node_def pipeline_default_def table_of_def make_node_id_def
      nodes_max_size_def erased_def is_valid_iff invalid_node_id_def)

text \<open>
  C6 at a handle that names no slot: on the empty pipeline, \<open>get_node(make_node_id(0))\<close>
  passes the \<open>is_valid\<close> guard and evaluates \<open>nodes[0]\<close> on an empty vector. The access is
  out of bounds and the call's behaviour is undefined; it does not return "no node".
\<close>

theorem get_node_out_of_bounds:
  "is_valid (pipeline_default :: tnode pipeline) (make_node_id pipeline_default 0)
   \<and> get_node (pipeline_default :: tnode pipeline) (make_node_id pipeline_default 0) = Undefined"
  by (simp add: get_node_def pipeline_default_def make_node_id_def is_valid_iff)

text \<open>
  On the sentinel and on every handle that names a slot of the table, \<open>get_node\<close> returns
  and changes nothing: no node for the sentinel, the slot's pointer otherwise (the live
  node, or no node once it has been erased).
\<close>

theorem get_node_on_table_handles:
  assumes "h = invalid_node_id p \<or> unat h < length (nodes p)"
  shows "get_node p h = Returns (if h = invalid_node_id p then None else nodes p ! unat h) p"
  using assms by (auto simp: get_node_def is_valid_def)

theorem get_node_on_table_handles_witness:
  "get_node (table_of [Some source_A, None]) 0
     = Returns (Some source_A) (table_of [Some source_A, None])
   \<and> get_node (table_of [Some source_A, None]) 1 = Returns None (table_of [Some source_A, None])
   \<and> get_node (table_of [Some source_A, None]) (- 1)
     = Returns None (table_of [Some source_A, None])"
  using get_node_on_table_handles [of 0 "table_of [Some source_A, None]"]
    get_node_on_table_handles [of 1 "table_of [Some source_A, None]"]
    get_node_on_table_handles [of "- 1" "table_of [Some source_A, None]"]
  by (simp add: table_of_def invalid_node_id_def)

subsection \<open>Creating and erasing\<close>

text \<open>
  \<open>create_node\<close> on a table below \<open>max_size()\<close> returns the position of the new slot as
  the handle, appends the node and changes nothing else; the handle is valid and
  \<open>get_node\<close> resolves it to the new node.
\<close>

theorem create_node_handle_is_position:
  assumes "length (nodes p) < nodes_max_size"
  shows "\<exists>p'. create_node p new_node = Returns (of_nat (length (nodes p))) p'
              \<and> nodes p' = nodes p @ [Some new_node]
              \<and> connections p' = connections p
              \<and> node_ids p' = node_ids p
              \<and> is_valid p' (of_nat (length (nodes p)))
              \<and> get_node p' (of_nat (length (nodes p))) = Returns (Some new_node) p'"
proof -
  let ?h = "of_nat (length (nodes p)) :: node_id"
  let ?p' = "p\<lparr>nodes := nodes p @ [Some new_node]\<rparr>"
  from assms have u: "unat ?h = length (nodes p)" by (simp add: unat_of_nat_table)
  from assms have "unat ?h < 2 ^ 64 - 1" by (simp add: u nodes_max_size_def)
  then have ns: "?h \<noteq> - 1"
    by (auto simp: unsigned_minus_1_eq_mask mask_eq_exp_minus_1)
  have c: "create_node p new_node = Returns ?h ?p'"
    using assms by (simp add: create_node_def make_node_id_def)
  have g: "get_node ?p' ?h = Returns (Some new_node) ?p'"
    using ns u by (simp add: get_node_def is_valid_iff)
  from c g ns show ?thesis by (simp add: is_valid_iff)
qed

theorem create_node_handle_is_position_witness:
  "create_node (table_of [None]) sink_B_int = Returns 1 (table_of [None, Some sink_B_int])
   \<and> get_node (table_of [None, Some sink_B_int]) 1
     = Returns (Some sink_B_int) (table_of [None, Some sink_B_int])"
proof -
  have l: "length (nodes (table_of [None :: tnode option])) < nodes_max_size"
    by (simp add: table_of_def nodes_max_size_def)
  from create_node_handle_is_position [OF l, of sink_B_int] show ?thesis
    by (auto simp: table_of_def create_node_def make_node_id_def nodes_max_size_def)
qed

text \<open>
  C8 at a handle that names no slot: on the empty pipeline, \<open>erase_node(3)\<close> passes the
  \<open>is_valid\<close> guard and evaluates \<open>nodes[3].reset()\<close> on an empty vector, a write out of
  bounds. The call's behaviour is undefined; it is not a no-op.
\<close>

theorem erase_node_out_of_bounds:
  "is_valid (pipeline_default :: tnode pipeline) 3
   \<and> erase_node (pipeline_default :: tnode pipeline) 3 = Undefined"
  by (simp add: erase_node_def pipeline_default_def is_valid_iff)

text \<open>
  On the sentinel and on every handle that names a slot of the table, \<open>erase_node\<close>
  returns, empties at most the slot it names and leaves every other slot, the length of
  the table, the connection list and \<open>node_ids\<close> as they were; on the sentinel and on an
  already empty slot it changes nothing at all.
\<close>

theorem erase_node_frame:
  assumes "h = invalid_node_id p \<or> unat h < length (nodes p)"
  shows "\<exists>p'. erase_node p h = Returns () p'
              \<and> length (nodes p') = length (nodes p)
              \<and> (\<forall>i. i \<noteq> unat h \<longrightarrow> nodes p' ! i = nodes p ! i)
              \<and> connections p' = connections p
              \<and> node_ids p' = node_ids p
              \<and> (h = invalid_node_id p \<or> nodes p ! unat h = None \<longrightarrow> p' = p)
              \<and> (h \<noteq> invalid_node_id p \<longrightarrow> nodes p' ! unat h = None)"
proof (cases "h = invalid_node_id p")
  case True
  then show ?thesis by (simp add: erase_node_def is_valid_def)
next
  case False
  with assms have r: "unat h < length (nodes p)" by simp
  from False r have e: "erase_node p h = Returns () (p\<lparr>nodes := (nodes p)[unat h := None]\<rparr>)"
    by (simp add: erase_node_def is_valid_def)
  have "nodes p ! unat h = None \<Longrightarrow> (nodes p)[unat h := None] = nodes p"
    by (metis list_update_id)
  with e r False show ?thesis by simp
qed

theorem erase_node_frame_witness:
  "erase_node (table_of [Some source_A, Some sink_B_int]) 0
     = Returns () (table_of [None, Some sink_B_int])
   \<and> erase_node (table_of [None, Some sink_B_int]) 0 = Returns () (table_of [None, Some sink_B_int])
   \<and> erase_node (table_of [None, Some sink_B_int]) (- 1)
     = Returns () (table_of [None, Some sink_B_int])"
  using erase_node_frame [of 0 "table_of [Some source_A, Some sink_B_int]"]
    erase_node_frame [of 0 "table_of [None, Some sink_B_int]"]
    erase_node_frame [of "- 1" "table_of [None, Some sink_B_int]"]
  by (simp add: table_of_def invalid_node_id_def erase_node_def is_valid_iff)

subsection \<open>Handles are not reused\<close>

text \<open>
  An empty slot stays empty along any sequence of calls that all return, and no handle
  handed out in the sequence names it.
\<close>

lemma empty_slot_stays_empty:
  assumes "length (nodes p) \<le> nodes_max_size"
    and "unat h < length (nodes p)" and "nodes p ! unat h = None"
    and "apply_operations ops p = Returns hs p'"
  shows "erased p' h \<and> get_node p' h = Returns None p' \<and> h \<notin> set hs"
proof -
  from assms(2,1) have ns: "h \<noteq> - 1" by (rule table_handle_not_sentinel)
  note t = apply_operations_table [OF assms(4,1)]
  from t assms(2,3) have e: "unat h < length (nodes p')" "nodes p' ! unat h = None"
    by auto
  from t assms(2) have "h \<notin> set hs" by auto
  with e ns show ?thesis by (simp add: erased_def get_node_Returns)
qed

text \<open>
  The bookkeeping of handles, on the sequences in which every call returns: take any such
  sequence of \<open>create_node\<close> and \<open>erase_node\<close> calls on a new pipeline, a handle \<open>h\<close>
  that \<open>create_node\<close> handed out in it, and erase \<open>h\<close>. The slot of \<open>h\<close> is then empty,
  and after any further sequence of such calls that all return it is still empty,
  \<open>get_node\<close> resolves \<open>h\<close> to no node, and none of the further \<open>create_node\<close> calls
  has handed out \<open>h\<close> again.
\<close>

theorem stale_handle_resolves_to_no_node:
  assumes "apply_operations ops1 pipeline_default = Returns hs1 p1"
    and "h \<in> set hs1"
    and "erase_node p1 h = Returns u q"
    and "apply_operations ops2 q = Returns hs2 p2"
  shows "erased q h \<and> erased p2 h \<and> get_node p2 h = Returns None p2 \<and> h \<notin> set hs2"
proof -
  have l0: "length (nodes (pipeline_default :: 'a pipeline)) \<le> nodes_max_size"
    by (simp add: pipeline_default_def)
  from apply_operations_table [OF assms(1) l0] assms(2) have
    l1: "length (nodes p1) \<le> nodes_max_size" and h1: "unat h < length (nodes p1)"
    by auto
  from h1 l1 have ns: "h \<noteq> - 1" by (rule table_handle_not_sentinel)
  from assms(3) h1 ns have q: "nodes q = (nodes p1)[unat h := None]"
    by (auto simp: erase_node_def is_valid_iff)
  from q l1 have lq: "length (nodes q) \<le> nodes_max_size" by simp
  from q h1 have hq: "unat h < length (nodes q)" and eq: "nodes q ! unat h = None"
    by simp_all
  from hq eq have "erased q h" by (simp add: erased_def)
  with empty_slot_stays_empty [OF lq hq eq assms(4)] show ?thesis by simp
qed

theorem stale_handle_resolves_to_no_node_witness:
  "apply_operations [Create source_A] pipeline_default = Returns [0] (table_of [Some source_A])
   \<and> erase_node (table_of [Some source_A]) 0 = Returns () (table_of [None])
   \<and> apply_operations [Create sink_B_int, Create source_A2, Erase 1] (table_of [None])
     = Returns [1, 2] (table_of [None, None, Some source_A2])
   \<and> erased (table_of [None, None, Some source_A2]) 0
   \<and> get_node (table_of [None, None, Some source_A2]) 0
     = Returns None (table_of [None, None, Some source_A2])
   \<and> (0 :: node_id) \<notin> set [1, 2]"
proof -
  have a: "apply_operations [Create source_A] pipeline_default
             = Returns [0] (table_of [Some source_A])"
    by (simp add: create_node_def pipeline_default_def table_of_def
        make_node_id_def nodes_max_size_def)
  have e: "erase_node (table_of [Some source_A]) 0 = Returns () (table_of [None])"
    by (simp add: erase_node_def table_of_def is_valid_iff)
  have b: "apply_operations [Create sink_B_int, Create source_A2, Erase 1] (table_of [None])
             = Returns [1, 2] (table_of [None, None, Some source_A2])"
    by (simp add: create_node_def erase_node_def table_of_def
        make_node_id_def nodes_max_size_def is_valid_iff)
  from stale_handle_resolves_to_no_node [OF a _ e b] a e b show ?thesis by simp
qed

text \<open>
  C7 at a sequence with an \<open>erase_node\<close> of a handle that names no slot: on a new
  pipeline, node A is created with handle 0 and erased; then \<open>erase_node(7)\<close> passes the
  \<open>is_valid\<close> guard and evaluates \<open>nodes[7].reset()\<close> on a vector of size 1, a write out
  of bounds. From there the behaviour of the sequence is undefined: it has no state in
  which the slot of handle 0 is still empty and \<open>get_node(0)\<close> resolves to no node, and
  the \<open>create_node\<close> that follows has no defined result.
\<close>

theorem stale_handle_lost_by_erase_out_of_bounds:
  "apply_operations [Create source_A, Erase 0] pipeline_default = Returns [0] (table_of [None])
   \<and> is_valid (table_of [None :: tnode option]) 7
   \<and> erase_node (table_of [None :: tnode option]) 7 = Undefined
   \<and> apply_operations [Create source_A, Erase 0, Erase 7, Create source_A2] pipeline_default
     = Undefined"
  by (simp add: create_node_def erase_node_def pipeline_default_def table_of_def
      make_node_id_def nodes_max_size_def is_valid_iff)

section \<open>Connecting\<close>

lemmas example_defs =
  table_of_def source_node_def sink_node_def node_connect_def connect_def get_node_def
  is_valid_iff create_node_def make_node_id_def nodes_max_size_def pipeline_default_def

text \<open>What \<open>connect\<close> does once both lookups have returned.\<close>

lemma connect_resolved:
  assumes "get_node p src = Returns sn p" and "get_node p dst = Returns dn p"
  shows "connect nconnect p src dst slot =
     (case (sn, dn) of
        (Some s, Some d) \<Rightarrow>
          (case nconnect d s slot of
             Returns u d' \<Rightarrow> Returns () (p\<lparr>nodes := (nodes p)[unat dst := Some d']\<rparr>)
           | Throws e d' \<Rightarrow> Throws e (p\<lparr>nodes := (nodes p)[unat dst := Some d']\<rparr>)
           | Undefined \<Rightarrow> Undefined)
      | _ \<Rightarrow> Throws (pipeline_error pipeline_error_kind.invalid_node_id) p)"
  using assms by (simp add: connect_def)

subsection \<open>Type mismatch\<close>

text \<open>
  C1, as the code has it: \<open>connect\<close> compares no types. When both handles resolve to live
  nodes its outcome is that of the destination's own \<open>connect(source, slot)\<close>, so it fails
  with \<open>connection_type_mismatch\<close> exactly when that call throws it, whatever the declared
  types are; and whether it returns or throws, the connection list is as it was (so it
  stays empty when it was empty).
\<close>

theorem connect_compares_no_types:
  assumes "get_node p src = Returns (Some s) p" and "get_node p dst = Returns (Some d) p"
  shows "((\<exists>p'. connect nconnect p src dst slot
              = Throws (pipeline_error connection_type_mismatch) p')
          \<longleftrightarrow> (\<exists>d'. nconnect d s slot = Throws (pipeline_error connection_type_mismatch) d'))
         \<and> (\<forall>u e p'. connect nconnect p src dst slot = Returns u p'
                       \<or> connect nconnect p src dst slot = Throws e p'
               \<longrightarrow> connections p' = connections p)"
  by (auto simp: connect_resolved [OF assms] split: outcome.splits)

theorem connect_compares_no_types_witness:
  "get_node (table_of [Some source_A, Some sink_B_string]) 0
     = Returns (Some source_A) (table_of [Some source_A, Some sink_B_string])
   \<and> get_node (table_of [Some source_A, Some sink_B_string]) 1
     = Returns (Some sink_B_string) (table_of [Some source_A, Some sink_B_string])
   \<and> (\<nexists>p'. connect node_connect (table_of [Some source_A, Some sink_B_string]) 0 1 0
            = Throws (pipeline_error connection_type_mismatch) p')
   \<and> (\<nexists>d'. node_connect sink_B_string source_A 0
            = Throws (pipeline_error connection_type_mismatch) d')
   \<and> connections (table_of [Some source_A, Some (Tnode ''B'' T_void [T_string] [Some source_A])])
     = []"
proof -
  let ?p = "table_of [Some source_A, Some sink_B_string]"
  have a: "get_node ?p 0 = Returns (Some source_A) ?p"
    by (simp add: get_node_def table_of_def is_valid_iff)
  have b: "get_node ?p 1 = Returns (Some sink_B_string) ?p"
    by (simp add: get_node_def table_of_def is_valid_iff)
  have c: "\<nexists>d'. node_connect sink_B_string source_A 0
            = Throws (pipeline_error connection_type_mismatch) d'"
    by (simp add: node_connect_def sink_node_def)
  from connect_compares_no_types [OF a b, of node_connect 0] a b c show ?thesis
    by (simp add: table_of_def)
qed

text \<open>
  C1 as stated fails: \<open>Source<int>\<close> A and \<open>Sink<string>\<close> B are created, the output type
  of A differs from the type of slot 0 of B, and \<open>connect(A, B, 0)\<close> returns with A bound to
  the slot instead of failing with \<open>connection_type_mismatch\<close>.
\<close>

theorem connect_accepts_type_mismatch:
  "create_node pipeline_default source_A = Returns 0 (table_of [Some source_A])
   \<and> create_node (table_of [Some source_A]) sink_B_string
       = Returns 1 (table_of [Some source_A, Some sink_B_string])
   \<and> output_type source_A \<noteq> input_type sink_B_string ! 0
   \<and> connect node_connect (table_of [Some source_A, Some sink_B_string]) 0 1 0
       = Returns () (table_of [Some source_A, Some (Tnode ''B'' T_void [T_string] [Some source_A])])"
  by (simp add: example_defs)

subsection \<open>Failed calls\<close>

text \<open>
  C2, as the code has it: the one check \<open>connect\<close> makes is that both handles resolve to a
  node. Take a call in which each of the two handles is the sentinel or names a slot of
  the node table, and at least one of them resolves to no node (it is the sentinel, or
  its node has been erased). The call fails that check: it throws \<open>invalid_node_id\<close> and
  leaves the whole pipeline (the node table with every node's bindings, the connection
  list, \<open>node_ids\<close>) exactly as it was. Nothing is said here of a call in which a handle
  names no slot of the table.
\<close>

theorem connect_invalid_node_id_changes_nothing:
  assumes "src = invalid_node_id p \<or> unat src < length (nodes p)"
    and "dst = invalid_node_id p \<or> unat dst < length (nodes p)"
    and "get_node p src = Returns None p \<or> get_node p dst = Returns None p"
  shows "connect nconnect p src dst slot
           = Throws (pipeline_error pipeline_error_kind.invalid_node_id) p"
proof -
  from assms(1) have a:
    "get_node p src = Returns (if src = - 1 then None else nodes p ! unat src) p"
    by (intro get_node_Returns) (simp add: invalid_node_id_def)
  from assms(2) have b:
    "get_node p dst = Returns (if dst = - 1 then None else nodes p ! unat dst) p"
    by (intro get_node_Returns) (simp add: invalid_node_id_def)
  from assms(3) show ?thesis
    unfolding connect_resolved [OF a b] a b
    by (auto split: option.splits)
qed

theorem connect_invalid_node_id_changes_nothing_witness:
  "erase_node (table_of [Some source_A, Some sink_B_int]) 0
     = Returns () (table_of [None, Some sink_B_int])
   \<and> get_node (table_of [None, Some sink_B_int]) 0
     = Returns None (table_of [None, Some sink_B_int])
   \<and> connect node_connect (table_of [None, Some sink_B_int]) 0 1 0
     = Throws (pipeline_error pipeline_error_kind.invalid_node_id)
         (table_of [None, Some sink_B_int])
   \<and> connect node_connect (table_of [None, Some sink_B_int]) 1 (- 1) 0
     = Throws (pipeline_error pipeline_error_kind.invalid_node_id)
         (table_of [None, Some sink_B_int])"
proof -
  let ?p = "table_of [None, Some sink_B_int]"
  have r0: "(0 :: node_id) = invalid_node_id ?p \<or> unat (0 :: node_id) < length (nodes ?p)"
    by (simp add: table_of_def)
  have r1: "(1 :: node_id) = invalid_node_id ?p \<or> unat (1 :: node_id) < length (nodes ?p)"
    by (simp add: table_of_def)
  have rs: "(- 1 :: node_id) = invalid_node_id ?p
              \<or> unat (- 1 :: node_id) < length (nodes ?p)"
    by (simp add: invalid_node_id_def)
  have a: "get_node ?p 0 = Returns None ?p"
    by (simp add: get_node_def table_of_def is_valid_iff)
  have s: "get_node ?p (- 1) = Returns None ?p"
    by (simp add: get_node_def is_valid_iff)
  have e: "erase_node (table_of [Some source_A, Some sink_B_int]) 0 = Returns () ?p"
    by (simp add: erase_node_def table_of_def is_valid_iff)
  from a have c0: "get_node ?p 0 = Returns None ?p \<or> get_node ?p 1 = Returns None ?p"
    by simp
  from s have c1: "get_node ?p 1 = Returns None ?p \<or> get_node ?p (- 1) = Returns None ?p"
    by simp
  from connect_invalid_node_id_changes_nothing [OF r0 r1 c0, of node_connect 0]
    connect_invalid_node_id_changes_nothing [OF r1 rs c1, of node_connect 0] a e
  show ?thesis by simp
qed

text \<open>
  C2 as stated fails: the output type of the \<open>Source<string>\<close> S differs from the type of
  slot 0 of the \<open>Sink<int>\<close> B, so \<open>connect(S, B, 0)\<close> is a call that fails the
  \<open>connection_type_mismatch\<close> check of the specification. \<open>connect\<close> makes no such check:
  the call returns, and slot 0 of B, unbound before the call, is bound to S after it.
\<close>

theorem connect_mutates_on_failed_check:
  "output_type source_S \<noteq> input_type sink_B_int ! 0
   \<and> connect node_connect (table_of [Some source_S, Some sink_B_int]) 0 1 0
     = Returns () (table_of [Some source_S, Some (Tnode ''B'' T_void [T_int] [Some source_S])])
   \<and> inputs sink_B_int ! 0 = None
   \<and> inputs (Tnode ''B'' T_void [T_int] [Some source_S]) ! 0 = Some source_S
   \<and> nodes (table_of [Some source_S, Some (Tnode ''B'' T_void [T_int] [Some source_S])])
     \<noteq> nodes (table_of [Some source_S, Some sink_B_int])"
  by (simp add: example_defs)

subsection \<open>Successful calls\<close>

text \<open>
  C3, as the code has it: when both handles resolve to live nodes and the destination's
  private \<open>connect(source, slot)\<close> returns, \<open>connect\<close> returns; the destination is as that
  call left it (with the upstream binding it recorded), every other slot of the table is
  as it was, and nothing is appended to the connection list: it is unchanged, as is
  \<open>node_ids\<close>.
\<close>

theorem connect_binds_without_recording:
  assumes "get_node p src = Returns (Some s) p" and "get_node p dst = Returns (Some d) p"
    and "nconnect d s slot = Returns u d'"
  shows "\<exists>p'. connect nconnect p src dst slot = Returns () p'
              \<and> nodes p' = (nodes p)[unat dst := Some d']
              \<and> connections p' = connections p
              \<and> node_ids p' = node_ids p"
  using assms(3) by (simp add: connect_resolved [OF assms(1,2)])

theorem connect_binds_without_recording_witness:
  "\<exists>p'. connect node_connect (table_of [Some source_A, Some sink_B_int]) 0 1 0 = Returns () p'
        \<and> nodes p' = [Some source_A, Some (Tnode ''B'' T_void [T_int] [Some source_A])]
        \<and> connections p' = []"
proof -
  let ?p = "table_of [Some source_A, Some sink_B_int]"
  have a: "get_node ?p 0 = Returns (Some source_A) ?p"
    by (simp add: get_node_def table_of_def is_valid_iff)
  have b: "get_node ?p 1 = Returns (Some sink_B_int) ?p"
    by (simp add: get_node_def table_of_def is_valid_iff)
  have c: "node_connect sink_B_int source_A 0
             = Returns () (Tnode ''B'' T_void [T_int] [Some source_A])"
    by (simp add: node_connect_def sink_node_def)
  from connect_binds_without_recording [where nconnect = node_connect, OF a b c] show ?thesis
    by (auto simp: table_of_def)
qed

text \<open>
  C3 as stated fails: \<open>Source<int>\<close> A and \<open>Sink<int>\<close> B pass all four checks of the
  specification (both live, slot 0 exists, it is unbound, the types agree), and after
  \<open>connect(A, B, 0)\<close> has returned the connection list has no record \<open>(A, B, 0)\<close>: it is
  still empty.
\<close>

theorem connect_records_no_connection:
  "0 < length (input_type sink_B_int)
   \<and> inputs sink_B_int ! 0 = None
   \<and> output_type source_A = input_type sink_B_int ! 0
   \<and> connect node_connect (table_of [Some source_A, Some sink_B_int]) 0 1 0
       = Returns () (table_of [Some source_A, Some (Tnode ''B'' T_void [T_int] [Some source_A])])
   \<and> connections (table_of [Some source_A, Some (Tnode ''B'' T_void [T_int] [Some source_A])])
       = []
   \<and> connections (table_of [Some source_A, Some (Tnode ''B'' T_void [T_int] [Some source_A])])
       \<noteq> connections (table_of [Some source_A, Some sink_B_int])
           @ [\<lparr>conn_src = Some source_A, conn_dst = Some sink_B_int, conn_slot = 0\<rparr>]"
  by (simp add: example_defs)

subsection \<open>Handles that resolve to no node\<close>

text \<open>
  C4 at a handle that names no slot: the table holds one live node, with handle 0, and
  handle 1 was never handed out. \<open>connect(0, 1, 0)\<close> and \<open>connect(1, 0, 0)\<close> look handle 1
  up with \<open>get_node\<close>, which reads \<open>nodes[1]\<close> out of bounds: the behaviour of the call is
  undefined; it does not throw \<open>invalid_node_id\<close>.
\<close>

theorem connect_out_of_bounds:
  "get_node (table_of [Some source_A]) 0 = Returns (Some source_A) (table_of [Some source_A])
   \<and> get_node (table_of [Some source_A]) 1 = Undefined
   \<and> connect node_connect (table_of [Some source_A]) 0 1 0 = Undefined
   \<and> connect node_connect (table_of [Some source_A]) 1 0 0 = Undefined"
  by (simp add: connect_def get_node_def table_of_def is_valid_iff)

text \<open>
  For handles that are the sentinel or name a slot of the table, \<open>connect\<close> throws
  \<open>invalid_node_id\<close> if and only if one of them resolves to no node (the sentinel, or a
  handle whose node has been erased), or both resolve and the destination's own
  \<open>connect\<close> throws it.
\<close>

theorem connect_invalid_node_id_iff:
  assumes "src = invalid_node_id p \<or> unat src < length (nodes p)"
    and "dst = invalid_node_id p \<or> unat dst < length (nodes p)"
  shows "(\<exists>p'. connect nconnect p src dst slot
              = Throws (pipeline_error pipeline_error_kind.invalid_node_id) p')
         \<longleftrightarrow> (get_node p src = Returns None p \<or> get_node p dst = Returns None p
              \<or> (\<exists>s d d'. get_node p src = Returns (Some s) p \<and> get_node p dst = Returns (Some d) p
                    \<and> nconnect d s slot
                        = Throws (pipeline_error pipeline_error_kind.invalid_node_id) d'))"
proof -
  from assms(1) have a:
    "get_node p src = Returns (if src = - 1 then None else nodes p ! unat src) p"
    by (intro get_node_Returns) (simp add: invalid_node_id_def)
  from assms(2) have b:
    "get_node p dst = Returns (if dst = - 1 then None else nodes p ! unat dst) p"
    by (intro get_node_Returns) (simp add: invalid_node_id_def)
  show ?thesis
    unfolding connect_resolved [OF a b] a b
    by (auto split: option.splits outcome.splits)
qed

theorem connect_invalid_node_id_iff_witness:
  "(\<exists>p'. connect node_connect (table_of [None, Some sink_B_int]) 0 1 0
              = Throws (pipeline_error pipeline_error_kind.invalid_node_id) p')
   \<and> get_node (table_of [None, Some sink_B_int]) 0
       = Returns None (table_of [None, Some sink_B_int])"
  using connect_invalid_node_id_iff [of 0 "table_of [None, Some sink_B_int]" 1 node_connect 0]
  by (simp add: table_of_def get_node_def is_valid_iff)

section \<open>Running\<close>

lemma run_returns_at:
  assumes "fst (step (state_after step n p))"
    and "\<forall>k < n. \<not> fst (step (state_after step k p))"
  shows "run step p = Some (snd (step (state_after step n p)))"
  using assms
proof (induction n arbitrary: p)
  case 0
  then show ?case by (subst run.simps) (simp add: case_prod_beta)
next
  case (Suc n)
  from Suc.prems(2) have first: "\<not> fst (step p)"
    by (metis state_after.simps(1) zero_less_Suc)
  have later: "\<forall>k < n. \<not> fst (step (state_after step k (snd (step p))))"
  proof (intro allI impI)
    fix k assume "k < n"
    then have "Suc k < Suc n" by simp
    with Suc.prems(2) have "\<not> fst (step (state_after step (Suc k) p))" by blast
    then show "\<not> fst (step (state_after step k (snd (step p))))" by simp
  qed
  from Suc.prems(1) have "fst (step (state_after step n (snd (step p))))" by simp
  from Suc.IH [OF this later] first show ?case
    by (subst run.simps) (simp add: case_prod_beta)
qed

lemma run_returns_only_at:
  assumes "run step p = Some p'"
  shows "\<exists>n. (\<forall>k < n. \<not> fst (step (state_after step k p)))
             \<and> fst (step (state_after step n p))
             \<and> p' = snd (step (state_after step n p))"
  using assms
proof (induction rule: run.raw_induct [rotated, consumes 1])
  case (1 run' step p p')
  show ?case
  proof (cases "fst (step p)")
    case True
    with 1(2) have "p' = snd (step p)" by (simp add: case_prod_beta)
    with True show ?thesis by (intro exI [of _ 0]) simp
  next
    case False
    with 1(2) have "run' step (snd (step p)) = Some p'" by (simp add: case_prod_beta)
    from 1(1) [OF this] obtain n where
      n: "\<forall>k < n. \<not> fst (step (state_after step k (snd (step p))))"
         "fst (step (state_after step n (snd (step p))))"
         "p' = snd (step (state_after step n (snd (step p))))"
      by blast
    have "\<forall>k < Suc n. \<not> fst (step (state_after step k p))"
    proof (intro allI impI)
      fix k assume k: "k < Suc n"
      show "\<not> fst (step (state_after step k p))"
      proof (cases k)
        case 0
        with False show ?thesis by simp
      next
        case (Suc j)
        with k n(1) show ?thesis by simp
      qed
    qed
    with n(2,3) show ?thesis by (intro exI [of _ "Suc n"]) simp
  qed
qed

text \<open>
  \<open>run\<close> calls \<open>step\<close> again and again until a call reports completion and then returns:
  it returns exactly when some call of \<open>step\<close> reports completion, and the state it leaves
  is the one left by the first such call, no call of \<open>step\<close> being made after it. When no
  call ever reports completion, \<open>run\<close> does not return.
\<close>

theorem run_steps_until_complete:
  "(run step p = Some p' \<longleftrightarrow>
      (\<exists>n. (\<forall>k < n. \<not> fst (step (state_after step k p)))
           \<and> fst (step (state_after step n p))
           \<and> p' = snd (step (state_after step n p))))
   \<and> (run step p = None \<longleftrightarrow> (\<forall>n. \<not> fst (step (state_after step n p))))"
proof -
  have some: "run step p = Some q \<longleftrightarrow>
      (\<exists>n. (\<forall>k < n. \<not> fst (step (state_after step k p)))
           \<and> fst (step (state_after step n p))
           \<and> q = snd (step (state_after step n p)))" for q
    using run_returns_at [of step _ p] run_returns_only_at [of step p q] by blast
  have none: "run step p = None \<longleftrightarrow> (\<forall>n. \<not> fst (step (state_after step n p)))"
  proof
    assume r: "run step p = None"
    show "\<forall>n. \<not> fst (step (state_after step n p))"
    proof (rule ccontr)
      assume "\<not> (\<forall>n. \<not> fst (step (state_after step n p)))"
      then have ex: "\<exists>n. fst (step (state_after step n p))" by simp
      define m where "m = (LEAST n. fst (step (state_after step n p)))"
      from ex have "fst (step (state_after step m p))"
        unfolding m_def by (metis (mono_tags, lifting) LeastI)
      moreover have "\<forall>k < m. \<not> fst (step (state_after step k p))"
        unfolding m_def using not_less_Least by blast
      ultimately have "run step p = Some (snd (step (state_after step m p)))"
        by (rule run_returns_at)
      with r show False by simp
    qed
  next
    assume "\<forall>n. \<not> fst (step (state_after step n p))"
    then show "run step p = None"
      using run_returns_only_at [of step p] by (cases "run step p") auto
  qed
  from some none show ?thesis by simp
qed

theorem run_steps_until_complete_witness:
  "run (\<lambda>n :: nat. (3 \<le> n, Suc n)) 0 = Some 4"
proof -
  let ?step = "\<lambda>n :: nat. (3 \<le> n, Suc n)"
  have s: "state_after ?step k 0 = k" for k
  proof -
    have "state_after ?step k j = j + k" for j
      by (induction k arbitrary: j) simp_all
    then show ?thesis by simp
  qed
  have "\<exists>n. (\<forall>k < n. \<not> fst (?step (state_after ?step k 0)))
          \<and> fst (?step (state_after ?step n 0))
          \<and> 4 = snd (?step (state_after ?step n 0))"
    by (intro exI [of _ 3]) (simp add: s)
  with run_steps_until_complete [of ?step 0 4] show ?thesis by simp
qed

end
